theory Spec2Isabelle
  imports
    Complex_Main
    "HOL-Library.Multiset"
    "HOL-Library.Product_Lexorder"
    "HOL-Library.Char_ord"
    "HOL-Library.List_Lexorder"
begin

section \<open>Displacement steps of tracked cells: a model of \<open>src/steps.py\<close>\<close>

text \<open>
  The module takes a pandas DataFrame of track points, pairs every point of a trajectory
  with the point \<open>tau_frames\<close> rows later in the same trajectory, and summarises the
  resulting steps per lag. The model below gives each pandas operation the module calls
  its own function and composes them in the order of the source.

  Modelling decisions:
  \<^item> a DataFrame is its column labels together with its rows, in row order; the row
    labels (the index) are not modelled: \<open>reset_index(drop=True)\<close> and
    \<open>ignore_index=True\<close> only renumber them, and every alignment in the module is
    between columns of one frame;
  \<^item> the columns have the types of the docstring: \<open>cell_id\<close> and \<open>frame\<close> are
    integer columns (int64 in pandas; the model reads their values as integers),
    \<open>t_min\<close>, \<open>x_um\<close> and \<open>y_um\<close> are float columns;
  \<^item> a float is NaN, an infinity or a finite number. Sums, differences and halves of
    finite numbers are exact (their rounding and overflow are not modelled); NaN and the
    infinities follow IEEE 754, because \<open>dropna\<close> and \<open>median\<close> branch on NaN;
  \<^item> the one integer column that passes through float64, \<open>frame_end\<close>, is rounded to the
    53 significant bits of a float64 on the way in and cast to int64 on the way out;
  \<^item> ties of \<open>sort_values\<close> keep their input order, as pandas' multi-key sort leaves
    them; the source does not decide this, and no statement below is about it alone;
  \<^item> every exception of the module is a \<open>ValueError\<close>; the error type tells them apart
    by what the message says.
\<close>

subsection \<open>Floats\<close>

datatype pyfloat = NaN | NInf | Fin real | PInf

fun isnan :: "pyfloat \<Rightarrow> bool" where
  "isnan NaN = True"
| "isnan _ = False"

text \<open>Neither NaN nor an infinity.\<close>

fun isfinite :: "pyfloat \<Rightarrow> bool" where
  "isfinite (Fin _) = True"
| "isfinite _ = False"

text \<open>\<open>a - b\<close> on floats.\<close>

fun fsub :: "pyfloat \<Rightarrow> pyfloat \<Rightarrow> pyfloat" where
  "fsub NaN _ = NaN"
| "fsub _ NaN = NaN"
| "fsub PInf PInf = NaN"
| "fsub NInf NInf = NaN"
| "fsub PInf _ = PInf"
| "fsub NInf _ = NInf"
| "fsub _ PInf = NInf"
| "fsub _ NInf = PInf"
| "fsub (Fin a) (Fin b) = Fin (a - b)"

text \<open>\<open>a + b\<close> on floats.\<close>

fun fadd :: "pyfloat \<Rightarrow> pyfloat \<Rightarrow> pyfloat" where
  "fadd NaN _ = NaN"
| "fadd _ NaN = NaN"
| "fadd PInf NInf = NaN"
| "fadd NInf PInf = NaN"
| "fadd PInf _ = PInf"
| "fadd NInf _ = NInf"
| "fadd _ PInf = PInf"
| "fadd _ NInf = NInf"
| "fadd (Fin a) (Fin b) = Fin (a + b)"

text \<open>\<open>a / 2\<close> on floats.\<close>

fun fhalf :: "pyfloat \<Rightarrow> pyfloat" where
  "fhalf (Fin a) = Fin (a / 2)"
| "fhalf a = a"

text \<open>
  The order of the floats that are not NaN, as a sort key:
  \<open>-inf\<close> below every finite number, \<open>+inf\<close> above. NaN gets the last place, where
  numpy's sorts put it; the module only ever orders floats after removing NaN.
\<close>

fun fkey :: "pyfloat \<Rightarrow> int \<times> real" where
  "fkey NInf = (-1, 0)"
| "fkey (Fin a) = (0, a)"
| "fkey PInf = (1, 0)"
| "fkey NaN = (2, 0)"

text \<open>Python's \<open>int.bit_length\<close>, on a number that is not negative.\<close>

function bit_length :: "int \<Rightarrow> nat" where
  "bit_length n = (if n \<le> 0 then 0 else Suc (bit_length (n div 2)))"
  by pat_completeness auto
termination
  by (relation "measure nat") auto

text \<open>The integer nearest to \<open>a / d\<close> for \<open>d > 0\<close>, the even one of two equally near.\<close>

definition round_half_even :: "int \<Rightarrow> int \<Rightarrow> int" where
  "round_half_even a d =
     (let q = a div d; r = a mod d in
      if 2 * r < d then q else if d < 2 * r then q + 1 else if even q then q else q + 1)"

text \<open>
  The float64 nearest to an integer, as an integer. A float64 has 53 significant bits:
  every integer up to \<open>2^53\<close> in absolute value is one, a larger integer is rounded to
  53 bits, ties to the even significand.
\<close>

definition nearest_float64 :: "int \<Rightarrow> int" where
  "nearest_float64 i =
     (if \<bar>i\<bar> \<le> 2 ^ 53 then i
      else let e = bit_length \<bar>i\<bar> - 53 in round_half_even i (2 ^ e) * 2 ^ e)"

text \<open>An integer column read as float64, as \<open>shift\<close> makes it when it fills in NaN.\<close>

definition float_of_int :: "int \<Rightarrow> pyfloat" where
  "float_of_int i = Fin (of_int (nearest_float64 i))"

subsection \<open>Tables\<close>

record track_point =
  cell_id :: int
  frame :: int
  t_min :: pyfloat
  x_um :: pyfloat
  y_um :: pyfloat

text \<open>
  The input DataFrame. \<open>rows\<close> holds the five required columns; a column that the
  labels do not list has no content to read, and \<open>validate_tracks\<close> fails before any
  row is looked at. Columns beyond the five are labels only: nothing reads them.
\<close>

record tracks =
  columns :: "string list"
  rows :: "track_point list"

text \<open>
  A row of the steps DataFrame. \<open>frame_end\<close> is a float column until the final
  \<open>astype(int)\<close>, so the row type takes the column's type as a parameter. The step's
  \<open>cell_id\<close> column is the field \<open>cell_id_step\<close>.
\<close>

record 'f step =
  cell_id_step :: int
  frame_start :: int
  t_start_min :: pyfloat
  frame_end :: 'f
  t_end_min :: pyfloat
  dx_um :: pyfloat
  dy_um :: pyfloat
  tau_frames :: int
  tau_min :: pyfloat

text \<open>A row of the summary; its \<open>tau_frames\<close> column is the field \<open>tau_frames_summary\<close>.\<close>

record summary =
  tau_frames_summary :: int
  n_steps :: nat
  n_cells :: nat
  median_tau_min :: pyfloat

datatype error =
    MissingColumns "string list"
  | InvalidLag
  | NoObjectsToConcatenate
  | IntCastingNaN

subsection \<open>The pandas operations the module calls\<close>

text \<open>
  \<open>df.sort_values(["cell_id", "frame"])\<close>: ascending by \<open>cell_id\<close>, then by \<open>frame\<close>.
  With more than one key pandas sorts through \<open>lexsort_indexer\<close>, which keeps rows with
  equal keys in their original order; \<open>sort_key\<close> is an insertion sort that does the same.
\<close>

definition sort_values :: "track_point list \<Rightarrow> track_point list" where
  "sort_values rs = sort_key (\<lambda>r. (cell_id r, frame r)) rs"

text \<open>Python's \<open>xs[n]\<close> read as an optional value: nothing where the index is out of range.\<close>

fun nth_opt :: "'a list \<Rightarrow> nat \<Rightarrow> 'a option" where
  "nth_opt [] n = None"
| "nth_opt (x # xs) 0 = Some x"
| "nth_opt (x # xs) (Suc n) = nth_opt xs n"

text \<open>
  \<open>df.groupby(key).shift(-n)\<close> for \<open>n \<ge> 0\<close>, row-wise: each row gets the row \<open>n\<close> places
  after it among the rows of its own group, or nothing when its group ends before that.
  The result is aligned with the input, whatever the order of the groups in it.
\<close>

fun groupby_shift :: "('a \<Rightarrow> 'k) \<Rightarrow> nat \<Rightarrow> 'a list \<Rightarrow> 'a option list" where
  "groupby_shift key n [] = []"
| "groupby_shift key n (x # xs) =
     nth_opt (filter (\<lambda>y. key y = key x) (x # xs)) n # groupby_shift key n xs"

text \<open>One shifted float column: NaN where the shift found no row.\<close>

definition shifted :: "(track_point \<Rightarrow> pyfloat) \<Rightarrow> track_point option \<Rightarrow> pyfloat" where
  "shifted col p = (case p of None \<Rightarrow> NaN | Some q \<Rightarrow> col q)"

text \<open>\<open>steps.dropna(subset=["dx_um", "dy_um", "frame_end", "t_end_min"])\<close>.\<close>

definition dropna :: "pyfloat step list \<Rightarrow> pyfloat step list" where
  "dropna steps =
     filter (\<lambda>s. \<not> isnan (dx_um s) \<and> \<not> isnan (dy_um s) \<and>
                 \<not> isnan (frame_end s) \<and> \<not> isnan (t_end_min s)) steps"

text \<open>
  \<open>astype(int)\<close> on one float: pandas raises on NaN and on the infinities; otherwise
  numpy casts the double to int64, truncating towards zero, and a value outside the
  int64 range comes out as the least int64 (the result of the conversion on x86-64; for
  \<open>2^63\<close>, the one such value that the float64 of an int64 can take, it is also the
  wrapped value).
\<close>

definition int64_cast :: "int \<Rightarrow> int" where
  "int64_cast t = (if - (2 ^ 63) \<le> t \<and> t < 2 ^ 63 then t else - (2 ^ 63))"

fun int_of_float :: "pyfloat \<Rightarrow> error + int" where
  "int_of_float (Fin a) = Inr (int64_cast (if 0 \<le> a then \<lfloor>a\<rfloor> else \<lceil>a\<rceil>))"
| "int_of_float _ = Inl IntCastingNaN"

definition astype_int :: "pyfloat step \<Rightarrow> error + int step" where
  "astype_int s =
     (case int_of_float (frame_end s) of
        Inl e \<Rightarrow> Inl e
      | Inr f \<Rightarrow>
          Inr \<lparr>cell_id_step = cell_id_step s, frame_start = frame_start s,
               t_start_min = t_start_min s, frame_end = f, t_end_min = t_end_min s,
               dx_um = dx_um s, dy_um = dy_um s, tau_frames = tau_frames s,
               tau_min = tau_min s\<rparr>)"

text \<open>The column-wise \<open>astype(int)\<close>: the first value that cannot be cast raises.\<close>

fun astype_int_all :: "pyfloat step list \<Rightarrow> error + int step list" where
  "astype_int_all [] = Inr []"
| "astype_int_all (s # ss) =
     (case astype_int s of
        Inl e \<Rightarrow> Inl e
      | Inr s' \<Rightarrow> (case astype_int_all ss of Inl e \<Rightarrow> Inl e | Inr ss' \<Rightarrow> Inr (s' # ss')))"

text \<open>
  \<open>pd.concat(frames, ignore_index=True)\<close>: the rows of the frames in order. pandas
  raises \<open>ValueError("No objects to concatenate")\<close> on an empty list of frames.
\<close>

fun pd_concat :: "'a list list \<Rightarrow> error + 'a list" where
  "pd_concat [] = Inl NoObjectsToConcatenate"
| "pd_concat frames = Inr (concat frames)"

text \<open>
  The median of a group as pandas' groupby computes it (\<open>median_linear\<close>): NaN values
  are left out; no value left gives NaN; an odd count gives the middle value in
  ascending order, an even count half the sum of the two middle values.
\<close>

definition kth_smallest :: "pyfloat list \<Rightarrow> nat \<Rightarrow> pyfloat" where
  "kth_smallest a k = sort_key fkey a ! k"

definition pd_median :: "pyfloat list \<Rightarrow> pyfloat" where
  "pd_median vals =
     (let a = filter (\<lambda>v. \<not> isnan v) vals; n = length a in
      if n = 0 then NaN
      else if n mod 2 = 1 then kth_smallest a (n div 2)
      else fhalf (fadd (kth_smallest a (n div 2)) (kth_smallest a (n div 2 - 1))))"

subsection \<open>The module\<close>

definition REQUIRED_TRACK_COLS :: "string set" where
  "REQUIRED_TRACK_COLS = {''cell_id'', ''frame'', ''t_min'', ''x_um'', ''y_um''}"

text \<open>
  \<open>validate_tracks\<close>: the required labels that the frame lacks, and if there are any, a
  ValueError whose message lists them sorted (Python's \<open>sorted\<close> on strings).
\<close>

definition validate_tracks :: "tracks \<Rightarrow> error + unit" where
  "validate_tracks tr =
     (let missing = REQUIRED_TRACK_COLS - set (columns tr) in
      if missing \<noteq> {} then Inl (MissingColumns (sorted_list_of_set missing))
      else Inr ())"

text \<open>
  One row of the \<open>steps\<close> frame before \<open>dropna\<close>: the sorted row \<open>r\<close> beside what the four
  shifts found for it (\<open>p\<close>, the row \<open>tau_frames\<close> places later in its group).
\<close>

definition steps_row :: "int \<Rightarrow> track_point \<Rightarrow> track_point option \<Rightarrow> pyfloat step" where
  "steps_row tau r p =
     (let x_future = shifted x_um p;
          y_future = shifted y_um p;
          t_future = shifted t_min p;
          f_future = shifted (\<lambda>q. float_of_int (frame q)) p;
          dx = fsub x_future (x_um r);
          dy = fsub y_future (y_um r)
      in \<lparr>cell_id_step = cell_id r, frame_start = frame r, t_start_min = t_min r,
           frame_end = f_future, t_end_min = t_future, dx_um = dx, dy_um = dy,
           tau_frames = tau, tau_min = fsub t_future (t_min r)\<rparr>)"

definition compute_steps_for_tau :: "tracks \<Rightarrow> int \<Rightarrow> error + int step list" where
  "compute_steps_for_tau tr tau =
     (case validate_tracks tr of
        Inl e \<Rightarrow> Inl e
      | Inr _ \<Rightarrow>
          if tau < 1 then Inl InvalidLag
          else
            let tracks_sorted = sort_values (rows tr);
                future = groupby_shift cell_id (nat tau) tracks_sorted;
                steps = map2 (steps_row tau) tracks_sorted future
            in astype_int_all (dropna steps))"

text \<open>The loop of \<open>compute_steps_multi_tau\<close>: \<open>all_steps\<close> grows by one frame per lag.\<close>

fun steps_loop :: "tracks \<Rightarrow> int step list list \<Rightarrow> int list \<Rightarrow> error + int step list list" where
  "steps_loop tr all_steps [] = Inr all_steps"
| "steps_loop tr all_steps (tau # taus) =
     (case compute_steps_for_tau tr tau of
        Inl e \<Rightarrow> Inl e
      | Inr s \<Rightarrow> steps_loop tr (all_steps @ [s]) taus)"

definition compute_steps_multi_tau :: "tracks \<Rightarrow> int list \<Rightarrow> error + int step list" where
  "compute_steps_multi_tau tr taus =
     (case validate_tracks tr of
        Inl e \<Rightarrow> Inl e
      | Inr _ \<Rightarrow>
          (case steps_loop tr [] taus of
             Inl e \<Rightarrow> Inl e
           | Inr all_steps \<Rightarrow> pd_concat all_steps))"

text \<open>
  \<open>summary_by_tau\<close>: \<open>groupby("tau_frames")\<close> visits the distinct keys in ascending order
  (\<open>sort=True\<close> is the default); \<open>size\<close> counts the rows of the group, \<open>nunique\<close> its
  distinct \<open>cell_id\<close> values, \<open>median\<close> is \<open>pd_median\<close> of its \<open>tau_min\<close> column.
\<close>

definition summary_row :: "int step list \<Rightarrow> int \<Rightarrow> summary" where
  "summary_row steps_all k =
     (let g = filter (\<lambda>s. tau_frames s = k) steps_all in
      \<lparr>tau_frames_summary = k, n_steps = length g,
       n_cells = length (remdups (map cell_id_step g)),
       median_tau_min = pd_median (map tau_min g)\<rparr>)"

definition summary_by_tau :: "int step list \<Rightarrow> summary list" where
  "summary_by_tau steps_all =
     map (summary_row steps_all) (sort (remdups (map tau_frames steps_all)))"

subsection \<open>The reference definitions of the specification\<close>

text \<open>
  The explicit partition-and-pair definition, written from the specification's algorithm
  and not from the module: stable-sort the rows by \<open>(cell_id, frame)\<close>, partition them by
  \<open>cell_id\<close> keeping the sorted order, pair row \<open>i\<close> of a partition with row
  \<open>i + tau_frames\<close> whenever that row exists, and emit one step per pair, trajectory by
  trajectory in ascending \<open>cell_id\<close>.
\<close>

definition trajectory :: "int \<Rightarrow> track_point list \<Rightarrow> track_point list" where
  "trajectory c rs = filter (\<lambda>r. cell_id r = c) rs"

definition pair_rows :: "nat \<Rightarrow> 'a list \<Rightarrow> ('a \<times> 'a) list" where
  "pair_rows n xs =
     map (\<lambda>i. (xs ! i, xs ! (i + n))) (filter (\<lambda>i. i + n < length xs) [0..<length xs])"

definition emit_step :: "int \<Rightarrow> track_point \<times> track_point \<Rightarrow> int step" where
  "emit_step tau ab =
     (case ab of (a, b) \<Rightarrow>
        \<lparr>cell_id_step = cell_id a, frame_start = frame a, t_start_min = t_min a,
         frame_end = frame b, t_end_min = t_min b,
         dx_um = fsub (x_um b) (x_um a), dy_um = fsub (y_um b) (y_um a),
         tau_frames = tau, tau_min = fsub (t_min b) (t_min a)\<rparr>)"

definition partition_and_pair :: "track_point list \<Rightarrow> int \<Rightarrow> int step list" where
  "partition_and_pair rs tau =
     (let s = sort_key (\<lambda>r. (cell_id r, frame r)) rs;
          ids = sort (remdups (map cell_id s))
      in concat (map (\<lambda>c. map (emit_step tau) (pair_rows (nat tau) (trajectory c s))) ids))"

text \<open>
  The standard median of the specification: the middle value in ascending order for an
  odd count, the average of the two middle values for an even count. The median of no
  value is not defined.
\<close>

definition median_spec :: "pyfloat list \<Rightarrow> pyfloat option" where
  "median_spec vals =
     (let s = sort_key fkey vals; n = length s in
      if n = 0 then None
      else if even n then Some (fhalf (fadd (s ! (n div 2 - 1)) (s ! (n div 2))))
      else Some (s ! (n div 2)))"

subsection \<open>Predicates of the statements\<close>

text \<open>No NaN and no infinity in the float columns of the table.\<close>

definition all_finite :: "track_point list \<Rightarrow> bool" where
  "all_finite rs =
     list_all (\<lambda>r. isfinite (t_min r) \<and> isfinite (x_um r) \<and> isfinite (y_um r)) rs"

text \<open>
  What the float64 round trip of \<open>shift\<close> and \<open>astype(int)\<close> makes of a frame, the
  reference step with its \<open>frame_end\<close> sent through it, and the tables whose frames all
  come back unchanged.
\<close>

definition frame_roundtrip :: "int \<Rightarrow> int" where
  "frame_roundtrip f = int64_cast (nearest_float64 f)"

definition returned_step :: "int step \<Rightarrow> int step" where
  "returned_step s = s\<lparr>frame_end := frame_roundtrip (frame_end s)\<rparr>"

definition float64_frames :: "track_point list \<Rightarrow> bool" where
  "float64_frames rs = list_all (\<lambda>r. frame_roundtrip (frame r) = frame r) rs"

text \<open>What \<open>dropna\<close> tests, on a finished step and on a row of the frame it filters.\<close>

definition notna_step :: "int step \<Rightarrow> bool" where
  "notna_step s \<longleftrightarrow> \<not> isnan (dx_um s) \<and> \<not> isnan (dy_um s) \<and> \<not> isnan (t_end_min s)"

definition dropna_keeps :: "pyfloat step \<Rightarrow> bool" where
  "dropna_keeps s \<longleftrightarrow> \<not> isnan (dx_um s) \<and> \<not> isnan (dy_um s) \<and>
                 \<not> isnan (frame_end s) \<and> \<not> isnan (t_end_min s)"

text \<open>
  The rows that the shifts of \<open>compute_steps_for_tau\<close> pair: each row beside the row
  \<open>n\<close> places later in its group, where there is one.
\<close>

definition partnered :: "('a \<Rightarrow> 'k) \<Rightarrow> nat \<Rightarrow> 'a list \<Rightarrow> ('a \<times> 'a) list" where
  "partnered key n xs =
     concat (map2 (\<lambda>x p. case p of None \<Rightarrow> [] | Some q \<Rightarrow> [(x, q)]) xs (groupby_shift key n xs))"

text \<open>The rows of a steps table with one lag: a group of \<open>groupby("tau_frames")\<close>.\<close>

definition lag_group :: "int \<Rightarrow> int step list \<Rightarrow> int step list" where
  "lag_group k steps_all = filter (\<lambda>s. tau_frames s = k) steps_all"

subsection \<open>Example tables\<close>

definition required_cols :: "string list" where
  "required_cols = [''cell_id'', ''frame'', ''t_min'', ''x_um'', ''y_um'']"

definition point :: "int \<Rightarrow> int \<Rightarrow> pyfloat \<Rightarrow> pyfloat \<Rightarrow> pyfloat \<Rightarrow> track_point" where
  "point c f t x y = \<lparr>cell_id = c, frame = f, t_min = t, x_um = x, y_um = y\<rparr>"

text \<open>
  Two trajectories with interleaved rows and one more column than required: cell 1 has
  the frames 0, 1, 2 at the times 0, 1.5, 2; cell 2 has the frames 0 and 3.
\<close>

definition demo_tracks :: tracks where
  "demo_tracks =
     \<lparr>columns = required_cols @ [''note''],
      rows = [point 2 3 (Fin 3) (Fin 5) (Fin 5),
              point 1 0 (Fin 0) (Fin 0) (Fin 0),
              point 2 0 (Fin 0) (Fin 4) (Fin 4),
              point 1 2 (Fin 2) (Fin 3) (Fin 3),
              point 1 1 (Fin (3 / 2)) (Fin 1) (Fin 1)]\<rparr>"

text \<open>The same rows, by ascending frame.\<close>

definition demo_tracks_by_frame :: tracks where
  "demo_tracks_by_frame =
     \<lparr>columns = required_cols @ [''note''],
      rows = [point 1 0 (Fin 0) (Fin 0) (Fin 0),
              point 2 0 (Fin 0) (Fin 4) (Fin 4),
              point 1 1 (Fin (3 / 2)) (Fin 1) (Fin 1),
              point 1 2 (Fin 2) (Fin 3) (Fin 3),
              point 2 3 (Fin 3) (Fin 5) (Fin 5)]\<rparr>"

text \<open>One trajectory of two points; the position of the second was not measured.\<close>

definition nan_tracks :: tracks where
  "nan_tracks =
     \<lparr>columns = required_cols,
      rows = [point 1 0 (Fin 0) (Fin 0) (Fin 0), point 1 1 (Fin 1) NaN (Fin 1)]\<rparr>"

text \<open>A table without the columns \<open>frame\<close>, \<open>t_min\<close> and \<open>y_um\<close>.\<close>

definition missing_tracks :: tracks where
  "missing_tracks = \<lparr>columns = [''x_um'', ''note'', ''cell_id''], rows = []\<rparr>"


text \<open>
  One trajectory whose first time stamp is NaN, and the steps the module computes from
  it for lag 1: the first step keeps its row, with \<open>tau_min\<close> NaN.
\<close>

definition nan_time_tracks :: tracks where
  "nan_time_tracks =
     \<lparr>columns = required_cols,
      rows = [point 1 0 NaN (Fin 0) (Fin 0), point 1 1 (Fin 0) (Fin 1) (Fin 1),
              point 1 2 (Fin 1) (Fin 2) (Fin 2), point 1 3 (Fin 3) (Fin 3) (Fin 3)]\<rparr>"

definition nan_steps :: "int step list" where
  "nan_steps =
     [\<lparr>cell_id_step = 1, frame_start = 0, t_start_min = NaN, frame_end = 1,
       t_end_min = Fin 0, dx_um = Fin 1, dy_um = Fin 1, tau_frames = 1, tau_min = NaN\<rparr>,
      \<lparr>cell_id_step = 1, frame_start = 1, t_start_min = Fin 0, frame_end = 2,
       t_end_min = Fin 1, dx_um = Fin 1, dy_um = Fin 1, tau_frames = 1, tau_min = Fin 1\<rparr>,
      \<lparr>cell_id_step = 1, frame_start = 2, t_start_min = Fin 1, frame_end = 3,
       t_end_min = Fin 3, dx_um = Fin 1, dy_um = Fin 1, tau_frames = 1, tau_min = Fin 2\<rparr>]"

text \<open>What \<open>compute_steps_multi_tau\<close> returns on \<open>demo_tracks\<close> for the lags 2, 1, 2.\<close>

definition demo_steps :: "int step list" where
  "demo_steps =
     [emit_step 2 (point 1 0 (Fin 0) (Fin 0) (Fin 0), point 1 2 (Fin 2) (Fin 3) (Fin 3)),
      emit_step 1 (point 1 0 (Fin 0) (Fin 0) (Fin 0), point 1 1 (Fin (3 / 2)) (Fin 1) (Fin 1)),
      emit_step 1 (point 1 1 (Fin (3 / 2)) (Fin 1) (Fin 1), point 1 2 (Fin 2) (Fin 3) (Fin 3)),
      emit_step 1 (point 2 0 (Fin 0) (Fin 4) (Fin 4), point 2 3 (Fin 3) (Fin 5) (Fin 5)),
      emit_step 2 (point 1 0 (Fin 0) (Fin 0) (Fin 0), point 1 2 (Fin 2) (Fin 3) (Fin 3))]"

section \<open>Auxiliary facts\<close>

lemma nth_opt_eq: "nth_opt xs n = (if n < length xs then Some (xs ! n) else None)"
  by (induction xs n rule: nth_opt.induct) auto

lemma filter_upt_min: "filter (\<lambda>i. i + n < m) [0..<k] = [0..<min k (m - n)]"
proof (induction k)
  case 0
  then show ?case by simp
next
  case (Suc k)
  show ?case
  proof (cases "k + n < m")
    case True
    then have "min k (m - n) = k" "min (Suc k) (m - n) = Suc k" by auto
    with Suc True show ?thesis by simp
  next
    case False
    then have "min k (m - n) = m - n" "min (Suc k) (m - n) = m - n" by auto
    with Suc False show ?thesis by simp
  qed
qed

text \<open>Pairing row \<open>i\<close> with row \<open>i + n\<close> is zipping the list with itself, \<open>n\<close> rows dropped.\<close>

lemma pair_rows_zip: "pair_rows n xs = zip xs (drop n xs)"
  unfolding pair_rows_def filter_upt_min
  by (rule nth_equalityI) (auto simp: add.commute)

lemma length_pair_rows: "length (pair_rows n xs) = length xs - n"
  by (simp add: pair_rows_zip)

lemma pair_rows_Cons:
  "pair_rows n (y # ys) =
     (case nth_opt (y # ys) n of None \<Rightarrow> [] | Some q \<Rightarrow> [(y, q)]) @ pair_rows n ys"
proof (cases n)
  case 0
  then show ?thesis by (simp add: pair_rows_zip)
next
  case (Suc m)
  show ?thesis
  proof (cases "m < length ys")
    case True
    then have "drop m ys = ys ! m # drop (Suc m) ys"
      by (simp add: Cons_nth_drop_Suc)
    then show ?thesis using True Suc by (simp add: pair_rows_zip nth_opt_eq)
  next
    case False
    then show ?thesis using Suc by (simp add: pair_rows_zip nth_opt_eq)
  qed
qed

lemma partnered_Cons:
  "partnered key n (x # xs) =
     (case nth_opt (filter (\<lambda>y. key y = key x) (x # xs)) n of None \<Rightarrow> [] | Some q \<Rightarrow> [(x, q)])
       @ partnered key n xs"
  by (simp add: partnered_def)

lemma concat_map_Nil: "(\<And>c. c \<in> set cs \<Longrightarrow> f c = []) \<Longrightarrow> concat (map f cs) = []"
  by (induction cs) auto

lemma concat_map_map: "map f (concat (map g cs)) = concat (map (\<lambda>c. map f (g c)) cs)"
  by (induction cs) auto

subsection \<open>The shifts of a sorted table pair the rows of each trajectory\<close>

lemma grouped_Cons:
  fixes key :: "'a \<Rightarrow> 'k::linorder"
  assumes srt: "sorted (map key (x # xs))"
    and cs: "sorted cs" "distinct cs" "key x \<in> set cs"
  shows "concat (map (\<lambda>c. pair_rows n (filter (\<lambda>r. key r = c) (x # xs))) cs) =
         (case nth_opt (filter (\<lambda>y. key y = key x) (x # xs)) n of
            None \<Rightarrow> [] | Some q \<Rightarrow> [(x, q)])
         @ concat (map (\<lambda>c. pair_rows n (filter (\<lambda>r. key r = c) xs)) cs)"
proof -
  from cs(3) obtain cs1 cs2 where split: "cs = cs1 @ key x # cs2"
    by (auto dest: split_list)
  have low: "c < key x" if "c \<in> set cs1" for c
    using that cs(1,2) unfolding split by (auto simp: sorted_append less_le)
  have ge: "key x \<le> key r" if "r \<in> set (x # xs)" for r
    using that srt by auto
  have none: "filter (\<lambda>r. key r = c) (x # xs) = []" if "c \<in> set cs1" for c
    using low [OF that] ge by (fastforce simp: filter_empty_conv)
  have none': "filter (\<lambda>r. key r = c) xs = []" if "c \<in> set cs1" for c
    using low [OF that] ge by (fastforce simp: filter_empty_conv)
  have other: "filter (\<lambda>r. key r = c) (x # xs) = filter (\<lambda>r. key r = c) xs"
    if "c \<in> set cs2" for c
    using that cs(2) unfolding split by auto
  define F where "F c = pair_rows n (filter (\<lambda>r. key r = c) (x # xs))" for c
  define G where "G c = pair_rows n (filter (\<lambda>r. key r = c) xs)" for c
  define P where "P = (case nth_opt (filter (\<lambda>y. key y = key x) (x # xs)) n of
                         None \<Rightarrow> [] | Some q \<Rightarrow> [(x, q)])"
  have l1: "concat (map F cs1) = []"
    by (rule concat_map_Nil) (simp add: F_def none pair_rows_zip del: filter.simps)
  have l2: "concat (map G cs1) = []"
    by (rule concat_map_Nil) (simp add: G_def none' pair_rows_zip)
  have r: "map F cs2 = map G cs2"
    by (rule map_cong) (simp_all add: F_def G_def other del: filter.simps)
  have m: "F (key x) = P @ G (key x)"
    unfolding F_def G_def P_def
    using pair_rows_Cons [of n x "filter (\<lambda>r. key r = key x) xs"] by simp
  have "concat (map F cs) = P @ concat (map G cs)"
    unfolding split by (simp add: l1 l2 r m)
  then show ?thesis
    unfolding F_def G_def P_def .
qed

lemma partnered_grouped:
  fixes key :: "'a \<Rightarrow> 'k::linorder"
  assumes "sorted (map key xs)" "sorted cs" "distinct cs" "set (map key xs) \<subseteq> set cs"
  shows "partnered key n xs = concat (map (\<lambda>c. pair_rows n (filter (\<lambda>r. key r = c) xs)) cs)"
  using assms
proof (induction xs)
  case Nil
  then show ?case by (simp add: partnered_def pair_rows_zip)
next
  case (Cons x xs)
  from Cons.prems have "partnered key n xs =
      concat (map (\<lambda>c. pair_rows n (filter (\<lambda>r. key r = c) xs)) cs)"
    by (intro Cons.IH) auto
  moreover from Cons.prems have "key x \<in> set cs" by simp
  ultimately show ?case
    using grouped_Cons [OF Cons.prems(1,2,3), of n] by (simp only: partnered_Cons)
qed

subsection \<open>From the frame before \<open>dropna\<close> to the finished steps\<close>

lemma dropna_filter: "dropna steps = filter dropna_keeps steps"
  unfolding dropna_def by (rule filter_cong) (simp_all add: dropna_keeps_def)

lemma int_of_float_of_int: "int_of_float (float_of_int i) = Inr (frame_roundtrip i)"
  by (simp add: float_of_int_def frame_roundtrip_def)

lemma frame_roundtrip_small: "\<bar>f\<bar> \<le> 2 ^ 53 \<Longrightarrow> frame_roundtrip f = f"
proof -
  assume small: "\<bar>f\<bar> \<le> 2 ^ 53"
  have "(2::int) ^ 53 < 2 ^ 63" by simp
  with small have "- (2 ^ 63) \<le> f \<and> f < 2 ^ 63" by linarith
  with small show ?thesis
    by (simp add: frame_roundtrip_def nearest_float64_def int64_cast_def)
qed

text \<open>Beyond \<open>2^53\<close> a frame need not come back: rounding, and at the top the cast.\<close>

lemma frame_roundtrip_large:
  "frame_roundtrip (2 ^ 53 + 1) = 2 ^ 53 \<and> frame_roundtrip (2 ^ 53 + 2) = 2 ^ 53 + 2 \<and>
   frame_roundtrip (2 ^ 53 + 3) = 2 ^ 53 + 4 \<and> frame_roundtrip (2 ^ 63 - 1) = - (2 ^ 63)"
  by code_simp

lemma steps_row_None: "\<not> dropna_keeps (steps_row tau r None)"
  by (simp add: dropna_keeps_def steps_row_def shifted_def Let_def)

lemma steps_row_Some_keeps:
  "dropna_keeps (steps_row tau r (Some q)) = notna_step (emit_step tau (r, q))"
  by (simp add: dropna_keeps_def notna_step_def steps_row_def emit_step_def shifted_def
      Let_def float_of_int_def)

lemma steps_row_Some_astype:
  "astype_int (steps_row tau r (Some q)) = Inr (returned_step (emit_step tau (r, q)))"
  by (simp add: astype_int_def steps_row_def emit_step_def returned_step_def shifted_def
      Let_def int_of_float_of_int)

lemma steps_partnered:
  "astype_int_all (dropna (map2 (steps_row tau) xs (groupby_shift cell_id n xs))) =
     Inr (map returned_step (filter notna_step (map (emit_step tau) (partnered cell_id n xs))))"
proof (induction xs)
  case Nil
  then show ?case by (simp add: dropna_filter partnered_def)
next
  case (Cons x xs)
  let ?p = "nth_opt (filter (\<lambda>y. cell_id y = cell_id x) (x # xs)) n"
  have unfold: "dropna (map2 (steps_row tau) (x # xs) (groupby_shift cell_id n (x # xs))) =
      (if dropna_keeps (steps_row tau x ?p) then [steps_row tau x ?p] else [])
      @ dropna (map2 (steps_row tau) xs (groupby_shift cell_id n xs))"
    by (simp add: dropna_filter)
  show ?case
  proof (cases ?p)
    case None
    then show ?thesis
      unfolding unfold partnered_Cons using Cons.IH steps_row_None [of tau x] by simp
  next
    case (Some q)
    then show ?thesis
      unfolding unfold partnered_Cons
      using Cons.IH steps_row_Some_keeps [of tau x q] steps_row_Some_astype [of tau x q]
      by simp
  qed
qed

lemma sorted_cell_id: "sorted (map cell_id (sort_values rs))"
proof -
  have "sorted (map (\<lambda>r. (cell_id r, frame r)) (sort_values rs))"
    unfolding sort_values_def by (rule sorted_sort_key)
  then have "sorted_wrt (\<lambda>a b. (cell_id a, frame a) \<le> (cell_id b, frame b)) (sort_values rs)"
    by (simp add: sorted_map)
  then have "sorted_wrt (\<lambda>a b. cell_id a \<le> cell_id b) (sort_values rs)"
    by (rule sorted_wrt_mono_rel [rotated]) (auto simp: less_eq_prod_def)
  then show ?thesis by (simp add: sorted_map)
qed

lemma validate_tracks_ok:
  "validate_tracks tr = Inr () \<longleftrightarrow> REQUIRED_TRACK_COLS \<subseteq> set (columns tr)"
  by (auto simp: validate_tracks_def Let_def)

lemma compute_steps_filter:
  assumes "REQUIRED_TRACK_COLS \<subseteq> set (columns tr)" and "1 \<le> tau"
  shows "compute_steps_for_tau tr tau =
           Inr (map returned_step (filter notna_step (partition_and_pair (rows tr) tau)))"
proof -
  let ?s = "sort_values (rows tr)"
  let ?ids = "sort (remdups (map cell_id ?s))"
  have "partnered cell_id (nat tau) ?s =
          concat (map (\<lambda>c. pair_rows (nat tau) (filter (\<lambda>r. cell_id r = c) ?s)) ?ids)"
    by (rule partnered_grouped) (simp_all add: sorted_cell_id)
  then have "map (emit_step tau) (partnered cell_id (nat tau) ?s) =
               partition_and_pair (rows tr) tau"
    by (simp add: partition_and_pair_def trajectory_def sort_values_def concat_map_map Let_def)
  moreover have "validate_tracks tr = Inr ()"
    using assms(1) by (simp add: validate_tracks_ok)
  ultimately show ?thesis
    using assms(2) steps_partnered [of tau ?s "nat tau"]
    by (simp add: compute_steps_for_tau_def Let_def)
qed

text \<open>Where every step of the reference definition comes from.\<close>

lemma set_pair_rows: "(a, b) \<in> set (pair_rows n xs) \<Longrightarrow> a \<in> set xs \<and> b \<in> set xs"
  unfolding pair_rows_zip by (auto dest: set_zip_leftD set_zip_rightD in_set_dropD)

lemma partition_and_pair_origin:
  assumes "s \<in> set (partition_and_pair rs tau)"
  shows "\<exists>a b. a \<in> set rs \<and> b \<in> set rs \<and> cell_id a = cell_id b \<and> s = emit_step tau (a, b)"
proof -
  let ?s = "sort_key (\<lambda>r. (cell_id r, frame r)) rs"
  from assms obtain c a b where "(a, b) \<in> set (pair_rows (nat tau) (trajectory c ?s))"
    and s: "s = emit_step tau (a, b)"
    by (auto simp: partition_and_pair_def Let_def)
  then have "a \<in> set (trajectory c ?s)" "b \<in> set (trajectory c ?s)"
    by (auto dest: set_pair_rows)
  then have "a \<in> set rs" "b \<in> set rs" "cell_id a = cell_id b"
    by (auto simp: trajectory_def)
  with s show ?thesis by blast
qed

lemma fsub_finite: "isfinite a \<Longrightarrow> isfinite b \<Longrightarrow> isfinite (fsub a b)"
  by (cases a; cases b) simp_all

lemma isfinite_notnan: "isfinite a \<Longrightarrow> \<not> isnan a"
  by (cases a) simp_all

lemma all_finite_notna:
  assumes "all_finite rs"
  shows "filter notna_step (partition_and_pair rs tau) = partition_and_pair rs tau"
proof -
  have "notna_step s" if "s \<in> set (partition_and_pair rs tau)" for s
  proof -
    from partition_and_pair_origin [OF that] obtain a b
      where ab: "a \<in> set rs" "b \<in> set rs" "s = emit_step tau (a, b)" by blast
    from assms ab(1,2) have "isfinite (t_min a)" "isfinite (x_um a)" "isfinite (y_um a)"
      "isfinite (t_min b)" "isfinite (x_um b)" "isfinite (y_um b)"
      by (auto simp: all_finite_def list_all_iff)
    then show ?thesis
      unfolding ab(3) notna_step_def emit_step_def
      by (simp add: isfinite_notnan fsub_finite)
  qed
  then show ?thesis by (simp add: filter_id_conv)
qed

lemma returned_step_exact:
  assumes "float64_frames rs" and "s \<in> set (partition_and_pair rs tau)"
  shows "returned_step s = s"
proof -
  from partition_and_pair_origin [OF assms(2)] obtain a b
    where b: "b \<in> set rs" and s: "s = emit_step tau (a, b)" by blast
  from assms(1) b have "frame_roundtrip (frame b) = frame b"
    by (simp add: float64_frames_def list_all_iff)
  then show ?thesis
    by (simp add: s returned_step_def emit_step_def)
qed

lemma map_returned_step_exact:
  assumes "float64_frames rs"
  shows "map returned_step (filter notna_step (partition_and_pair rs tau)) =
           filter notna_step (partition_and_pair rs tau)"
  by (rule map_idI) (auto intro: returned_step_exact [OF assms])

section \<open>The step extractor against the partition-and-pair definition\<close>

text \<open>
  Claim C1, on the code. For every tracks table with the required columns and every
  \<open>tau_frames \<ge> 1\<close>, \<open>compute_steps_for_tau\<close> returns, in the order of the reference
  partition-and-pair definition, those reference steps whose \<open>dx_um\<close>, \<open>dy_um\<close> and
  \<open>t_end_min\<close> are not NaN, each with its \<open>frame_end\<close> sent through float64 and back.
  When every frame of the table is a float64 value, the frames come back unchanged, and
  the output is the reference exactly when no reference step has a NaN in one of the
  three columns; that is so in particular when every \<open>t_min\<close>, \<open>x_um\<close> and \<open>y_um\<close> is
  finite. Every reference step pairs two rows of one \<open>cell_id\<close>.
\<close>

theorem compute_steps_partition_and_pair:
  assumes "REQUIRED_TRACK_COLS \<subseteq> set (columns tr)" and "1 \<le> tau"
  shows "\<exists>out. compute_steps_for_tau tr tau = Inr out \<and>
           out = map returned_step (filter notna_step (partition_and_pair (rows tr) tau)) \<and>
           (float64_frames (rows tr) \<longrightarrow>
              out = filter notna_step (partition_and_pair (rows tr) tau) \<and>
              (out = partition_and_pair (rows tr) tau \<longleftrightarrow>
                 list_all notna_step (partition_and_pair (rows tr) tau))) \<and>
           (all_finite (rows tr) \<longrightarrow> list_all notna_step (partition_and_pair (rows tr) tau)) \<and>
           (\<forall>s \<in> set (partition_and_pair (rows tr) tau).
              \<exists>a b. a \<in> set (rows tr) \<and> b \<in> set (rows tr) \<and> cell_id a = cell_id b \<and>
                    s = emit_step tau (a, b))"
proof -
  let ?ref = "partition_and_pair (rows tr) tau"
  let ?out = "map returned_step (filter notna_step ?ref)"
  have run: "compute_steps_for_tau tr tau = Inr ?out"
    by (rule compute_steps_filter [OF assms])
  have exact: "?out = filter notna_step ?ref \<and> (?out = ?ref \<longleftrightarrow> list_all notna_step ?ref)"
    if "float64_frames (rows tr)"
    using map_returned_step_exact [OF that, of tau]
    by (simp add: filter_id_conv list_all_iff)
  have finite: "list_all notna_step ?ref" if "all_finite (rows tr)"
    using all_finite_notna [OF that, of tau] by (simp add: filter_id_conv list_all_iff)
  have origin: "\<forall>s \<in> set ?ref.
      \<exists>a b. a \<in> set (rows tr) \<and> b \<in> set (rows tr) \<and> cell_id a = cell_id b \<and>
            s = emit_step tau (a, b)"
    using partition_and_pair_origin [of _ "rows tr" tau] by blast
  from run exact finite origin show ?thesis by blast
qed

text \<open>
  On \<open>nan_tracks\<close> the second point exists and the reference definition pairs it with
  the first, but \<open>dropna\<close> removes the step because its \<open>dx_um\<close> is NaN: the module
  returns no step. On \<open>demo_tracks\<close> it returns the three reference steps.
\<close>

theorem compute_steps_partition_and_pair_witness:
  "REQUIRED_TRACK_COLS \<subseteq> set (columns nan_tracks) \<and> (1::int) \<le> 1 \<and>
   float64_frames (rows nan_tracks) \<and>
   partition_and_pair (rows nan_tracks) 1 =
     [\<lparr>cell_id_step = 1, frame_start = 0, t_start_min = Fin 0, frame_end = 1,
       t_end_min = Fin 1, dx_um = NaN, dy_um = Fin 1, tau_frames = 1, tau_min = Fin 1\<rparr>] \<and>
   compute_steps_for_tau nan_tracks 1 = Inr [] \<and>
   REQUIRED_TRACK_COLS \<subseteq> set (columns demo_tracks) \<and>
   float64_frames (rows demo_tracks) \<and> all_finite (rows demo_tracks) \<and>
   compute_steps_for_tau demo_tracks 1 = Inr (partition_and_pair (rows demo_tracks) 1) \<and>
   partition_and_pair (rows demo_tracks) 1 =
     [\<lparr>cell_id_step = 1, frame_start = 0, t_start_min = Fin 0, frame_end = 1,
       t_end_min = Fin (3 / 2), dx_um = Fin 1, dy_um = Fin 1, tau_frames = 1,
       tau_min = Fin (3 / 2)\<rparr>,
      \<lparr>cell_id_step = 1, frame_start = 1, t_start_min = Fin (3 / 2), frame_end = 2,
       t_end_min = Fin 2, dx_um = Fin 2, dy_um = Fin 2, tau_frames = 1,
       tau_min = Fin (1 / 2)\<rparr>,
      \<lparr>cell_id_step = 2, frame_start = 0, t_start_min = Fin 0, frame_end = 3,
       t_end_min = Fin 3, dx_um = Fin 1, dy_um = Fin 1, tau_frames = 1,
       tau_min = Fin 3\<rparr>]"
proof -
  have one: "(1::int) \<le> 1" by simp
  have ncols: "REQUIRED_TRACK_COLS \<subseteq> set (columns nan_tracks)" by code_simp
  have nframes: "float64_frames (rows nan_tracks)" by code_simp
  have nref: "partition_and_pair (rows nan_tracks) 1 =
     [\<lparr>cell_id_step = 1, frame_start = 0, t_start_min = Fin 0, frame_end = 1,
       t_end_min = Fin 1, dx_um = NaN, dy_um = Fin 1, tau_frames = 1, tau_min = Fin 1\<rparr>]"
    by code_simp
  from compute_steps_partition_and_pair [OF ncols one] nframes
  have "compute_steps_for_tau nan_tracks 1 =
          Inr (filter notna_step (partition_and_pair (rows nan_tracks) 1))"
    by auto
  then have nrun: "compute_steps_for_tau nan_tracks 1 = Inr []"
    by (simp add: nref notna_step_def)
  have cols: "REQUIRED_TRACK_COLS \<subseteq> set (columns demo_tracks)" by code_simp
  have frames: "float64_frames (rows demo_tracks)" by code_simp
  have fin: "all_finite (rows demo_tracks)" by code_simp
  have ref: "partition_and_pair (rows demo_tracks) 1 =
     [\<lparr>cell_id_step = 1, frame_start = 0, t_start_min = Fin 0, frame_end = 1,
       t_end_min = Fin (3 / 2), dx_um = Fin 1, dy_um = Fin 1, tau_frames = 1,
       tau_min = Fin (3 / 2)\<rparr>,
      \<lparr>cell_id_step = 1, frame_start = 1, t_start_min = Fin (3 / 2), frame_end = 2,
       t_end_min = Fin 2, dx_um = Fin 2, dy_um = Fin 2, tau_frames = 1,
       tau_min = Fin (1 / 2)\<rparr>,
      \<lparr>cell_id_step = 2, frame_start = 0, t_start_min = Fin 0, frame_end = 3,
       t_end_min = Fin 3, dx_um = Fin 1, dy_um = Fin 1, tau_frames = 1,
       tau_min = Fin 3\<rparr>]"
    by code_simp
  from compute_steps_partition_and_pair [OF cols one] frames fin
  have run: "compute_steps_for_tau demo_tracks 1 = Inr (partition_and_pair (rows demo_tracks) 1)"
    by auto
  show ?thesis
    by (intro conjI ncols one nframes nref nrun cols frames fin run ref)
qed

section \<open>The number of steps\<close>

lemma length_trajectory_sort:
  "length (trajectory c (sort_key f rs)) = length (trajectory c rs)"
proof -
  have "mset (trajectory c (sort_key f rs)) = mset (trajectory c rs)"
    by (simp add: trajectory_def)
  then show ?thesis by (rule mset_eq_length)
qed

lemma length_partition_and_pair:
  "int (length (partition_and_pair rs tau)) =
     (\<Sum>c \<in> cell_id ` set rs. max 0 (int (length (trajectory c rs)) - int (nat tau)))"
proof -
  let ?s = "sort_key (\<lambda>r. (cell_id r, frame r)) rs"
  let ?ids = "sort (remdups (map cell_id ?s))"
  have "length (partition_and_pair rs tau) =
          sum_list (map (\<lambda>c. length (trajectory c rs) - nat tau) ?ids)"
    by (simp add: partition_and_pair_def Let_def length_concat comp_def length_pair_rows
        length_trajectory_sort)
  also have "\<dots> = (\<Sum>c \<in> set ?ids. length (trajectory c rs) - nat tau)"
    by (rule sum_list_distinct_conv_sum_set) simp
  also have "set ?ids = cell_id ` set rs" by simp
  finally have "int (length (partition_and_pair rs tau)) =
      (\<Sum>c \<in> cell_id ` set rs. int (length (trajectory c rs) - nat tau))"
    by simp
  also have "\<dots> = (\<Sum>c \<in> cell_id ` set rs. max 0 (int (length (trajectory c rs)) - int (nat tau)))"
    by (rule sum.cong) auto
  finally show ?thesis .
qed

lemma length_filter_split:
  "length (filter P xs) + length (filter (\<lambda>x. \<not> P x) xs) = length xs"
  by (induction xs) simp_all

text \<open>
  Claim C2, on the code. For every tracks table with the required columns and every lag
  \<open>k \<ge> 1\<close>, the rows that \<open>compute_steps_for_tau\<close> returns and the reference steps with a
  NaN in \<open>dx_um\<close>, \<open>dy_um\<close> or \<open>t_end_min\<close> together number the sum over the trajectories
  of \<open>max(0, N_c - k)\<close>, where \<open>N_c\<close> is the number of rows of trajectory \<open>c\<close>. So the
  number of returned rows is that sum exactly when no reference step has such a NaN, and
  smaller otherwise.
\<close>

theorem compute_steps_row_count:
  assumes "REQUIRED_TRACK_COLS \<subseteq> set (columns tr)" and "1 \<le> k"
  shows "\<exists>out. compute_steps_for_tau tr k = Inr out \<and>
           int (length out) +
             int (length (filter (\<lambda>s. \<not> notna_step s) (partition_and_pair (rows tr) k))) =
             (\<Sum>c \<in> cell_id ` set (rows tr). max 0 (int (length (trajectory c (rows tr))) - k)) \<and>
           (int (length out) =
              (\<Sum>c \<in> cell_id ` set (rows tr). max 0 (int (length (trajectory c (rows tr))) - k))
            \<longleftrightarrow> list_all notna_step (partition_and_pair (rows tr) k))"
proof -
  let ?ref = "partition_and_pair (rows tr) k"
  let ?out = "map returned_step (filter notna_step ?ref)"
  let ?sum = "\<Sum>c \<in> cell_id ` set (rows tr). max 0 (int (length (trajectory c (rows tr))) - k)"
  have run: "compute_steps_for_tau tr k = Inr ?out"
    by (rule compute_steps_filter [OF assms])
  have len: "int (length ?ref) = ?sum"
    using assms(2) length_partition_and_pair [of "rows tr" k] by simp
  have split: "int (length ?out) + int (length (filter (\<lambda>s. \<not> notna_step s) ?ref)) = ?sum"
    using len length_filter_split [of notna_step ?ref] by simp
  have "int (length ?out) = ?sum \<longleftrightarrow> filter (\<lambda>s. \<not> notna_step s) ?ref = []"
    using split by auto
  also have "\<dots> \<longleftrightarrow> list_all notna_step ?ref"
    by (simp add: filter_empty_conv list_all_iff)
  finally show ?thesis using run split by blast
qed

text \<open>
  On \<open>nan_tracks\<close>, one trajectory of two rows and lag 1, the sum is 1 and the module
  returns no row: the one reference step has a NaN \<open>dx_um\<close>.
\<close>

theorem compute_steps_row_count_witness:
  "REQUIRED_TRACK_COLS \<subseteq> set (columns nan_tracks) \<and> (1::int) \<le> 1 \<and>
   (\<Sum>c \<in> cell_id ` set (rows nan_tracks).
      max 0 (int (length (trajectory c (rows nan_tracks))) - 1)) = 1 \<and>
   length (filter (\<lambda>s. \<not> notna_step s) (partition_and_pair (rows nan_tracks) 1)) = 1 \<and>
   (\<exists>out. compute_steps_for_tau nan_tracks 1 = Inr out \<and> length out = 0)"
proof -
  have cols: "REQUIRED_TRACK_COLS \<subseteq> set (columns nan_tracks)" by code_simp
  have one: "(1::int) \<le> 1" by simp
  have total: "(\<Sum>c \<in> cell_id ` set (rows nan_tracks).
      max 0 (int (length (trajectory c (rows nan_tracks))) - 1)) = 1"
    by code_simp
  have dropped: "length (filter (\<lambda>s. \<not> notna_step s) (partition_and_pair (rows nan_tracks) 1)) = 1"
    by code_simp
  from compute_steps_row_count [OF cols one] obtain out
    where "compute_steps_for_tau nan_tracks 1 = Inr out"
      and "int (length out) +
             int (length (filter (\<lambda>s. \<not> notna_step s) (partition_and_pair (rows nan_tracks) 1))) =
             (\<Sum>c \<in> cell_id ` set (rows nan_tracks).
                max 0 (int (length (trajectory c (rows nan_tracks))) - 1))"
    by blast
  then have "\<exists>out. compute_steps_for_tau nan_tracks 1 = Inr out \<and> length out = 0"
    unfolding total dropped by auto
  then show ?thesis
    by (intro conjI cols one total dropped)
qed

section \<open>Validation\<close>

lemma sorted_required_cols: "sorted required_cols \<and> distinct required_cols"
  by code_simp

lemma set_required_cols: "set required_cols = REQUIRED_TRACK_COLS"
  by (auto simp: required_cols_def REQUIRED_TRACK_COLS_def)

lemma missing_sorted:
  "sorted_list_of_set (REQUIRED_TRACK_COLS - set cols) =
     filter (\<lambda>c. c \<notin> set cols) required_cols"
proof -
  have "REQUIRED_TRACK_COLS - set cols = set (filter (\<lambda>c. c \<notin> set cols) required_cols)"
    by (auto simp: set_required_cols)
  moreover have "sorted (filter (\<lambda>c. c \<notin> set cols) required_cols)"
    "distinct (filter (\<lambda>c. c \<notin> set cols) required_cols)"
    using sorted_required_cols by (simp_all add: sorted_wrt_filter)
  ultimately show ?thesis
    by (simp only: sorted_list_of_set.idem_if_sorted_distinct)
qed

lemma validate_tracks_missing:
  assumes "\<not> REQUIRED_TRACK_COLS \<subseteq> set (columns tr)"
  shows "validate_tracks tr =
           Inl (MissingColumns (filter (\<lambda>c. c \<notin> set (columns tr)) required_cols))"
  using assms by (auto simp: validate_tracks_def Let_def missing_sorted)

text \<open>
  Claim C6. A table that lacks a required column makes \<open>validate_tracks\<close>,
  \<open>compute_steps_for_tau\<close> and \<open>compute_steps_multi_tau\<close> fail with the same
  MissingColumns error, whatever the lag or the list of lags (so before either is looked
  at); the error names exactly the required columns that the table lacks, each once, in
  ascending string order. A table with every required column passes validation,
  whatever other columns it has.
\<close>

theorem missing_columns_reported:
  "(\<not> REQUIRED_TRACK_COLS \<subseteq> set (columns tr) \<longrightarrow>
      (\<exists>names. validate_tracks tr = Inl (MissingColumns names) \<and>
         compute_steps_for_tau tr tau = Inl (MissingColumns names) \<and>
         compute_steps_multi_tau tr taus = Inl (MissingColumns names) \<and>
         names = filter (\<lambda>c. c \<notin> set (columns tr)) required_cols \<and>
         set names = REQUIRED_TRACK_COLS - set (columns tr) \<and>
         sorted names \<and> distinct names \<and> names \<noteq> [])) \<and>
   (REQUIRED_TRACK_COLS \<subseteq> set (columns tr) \<longrightarrow> validate_tracks tr = Inr ())"
proof (intro conjI impI)
  assume miss: "\<not> REQUIRED_TRACK_COLS \<subseteq> set (columns tr)"
  let ?names = "filter (\<lambda>c. c \<notin> set (columns tr)) required_cols"
  have v: "validate_tracks tr = Inl (MissingColumns ?names)"
    by (rule validate_tracks_missing [OF miss])
  have "set ?names = REQUIRED_TRACK_COLS - set (columns tr)"
    by (auto simp: set_required_cols)
  moreover from this miss have "?names \<noteq> []"
    by (metis Diff_eq_empty_iff empty_set)
  moreover have "sorted ?names" "distinct ?names"
    using sorted_required_cols by (simp_all add: sorted_wrt_filter)
  moreover have "compute_steps_for_tau tr tau = Inl (MissingColumns ?names)"
    by (simp add: compute_steps_for_tau_def v)
  moreover have "compute_steps_multi_tau tr taus = Inl (MissingColumns ?names)"
    by (simp add: compute_steps_multi_tau_def v)
  ultimately show "\<exists>names. validate_tracks tr = Inl (MissingColumns names) \<and>
         compute_steps_for_tau tr tau = Inl (MissingColumns names) \<and>
         compute_steps_multi_tau tr taus = Inl (MissingColumns names) \<and>
         names = filter (\<lambda>c. c \<notin> set (columns tr)) required_cols \<and>
         set names = REQUIRED_TRACK_COLS - set (columns tr) \<and>
         sorted names \<and> distinct names \<and> names \<noteq> []"
    using v by blast
next
  assume "REQUIRED_TRACK_COLS \<subseteq> set (columns tr)"
  then show "validate_tracks tr = Inr ()" by (simp add: validate_tracks_ok)
qed

theorem missing_columns_reported_witness:
  "\<not> REQUIRED_TRACK_COLS \<subseteq> set (columns missing_tracks) \<and>
   validate_tracks missing_tracks = Inl (MissingColumns [''frame'', ''t_min'', ''y_um'']) \<and>
   compute_steps_for_tau missing_tracks 0 = Inl (MissingColumns [''frame'', ''t_min'', ''y_um'']) \<and>
   compute_steps_multi_tau missing_tracks [] = Inl (MissingColumns [''frame'', ''t_min'', ''y_um'']) \<and>
   REQUIRED_TRACK_COLS \<subseteq> set (columns demo_tracks) \<and>
   ''note'' \<in> set (columns demo_tracks) \<and> ''note'' \<notin> REQUIRED_TRACK_COLS \<and>
   validate_tracks demo_tracks = Inr ()"
proof -
  have miss: "\<not> REQUIRED_TRACK_COLS \<subseteq> set (columns missing_tracks)" by code_simp
  have names: "filter (\<lambda>c. c \<notin> set (columns missing_tracks)) required_cols =
                 [''frame'', ''t_min'', ''y_um'']"
    by code_simp
  have cols: "REQUIRED_TRACK_COLS \<subseteq> set (columns demo_tracks)" by code_simp
  have extra: "''note'' \<in> set (columns demo_tracks)" "''note'' \<notin> REQUIRED_TRACK_COLS"
    by code_simp+
  from missing_columns_reported [of missing_tracks 0 "[]"] miss
  have "validate_tracks missing_tracks = Inl (MissingColumns [''frame'', ''t_min'', ''y_um''])"
    "compute_steps_for_tau missing_tracks 0 = Inl (MissingColumns [''frame'', ''t_min'', ''y_um''])"
    "compute_steps_multi_tau missing_tracks [] = Inl (MissingColumns [''frame'', ''t_min'', ''y_um''])"
    unfolding names by blast+
  moreover from missing_columns_reported [of demo_tracks 0 "[]"] cols
  have "validate_tracks demo_tracks = Inr ()" by blast
  ultimately show ?thesis
    using miss cols extra by blast
qed


section \<open>The lag precondition\<close>

text \<open>
  Claim C5. On a tracks table with the required columns, \<open>compute_steps_for_tau\<close>
  fails with InvalidLag exactly when \<open>tau_frames < 1\<close>: the result is then the error, with
  no rows beside it, and for every \<open>tau_frames \<ge> 1\<close> the call returns a table. In
  particular it fails for 0 and for -1 and succeeds for 1.
\<close>

theorem invalid_lag_iff:
  assumes "REQUIRED_TRACK_COLS \<subseteq> set (columns tr)"
  shows "(compute_steps_for_tau tr tau = Inl InvalidLag) = (tau < 1) \<and>
         (1 \<le> tau \<longrightarrow> (\<exists>out. compute_steps_for_tau tr tau = Inr out)) \<and>
         compute_steps_for_tau tr 0 = Inl InvalidLag \<and>
         compute_steps_for_tau tr (- 1) = Inl InvalidLag \<and>
         (\<exists>out. compute_steps_for_tau tr 1 = Inr out)"
proof -
  have v: "validate_tracks tr = Inr ()"
    using assms by (simp add: validate_tracks_ok)
  have bad: "compute_steps_for_tau tr t = Inl InvalidLag" if "t < 1" for t
    using that by (simp add: compute_steps_for_tau_def v)
  have good: "\<exists>out. compute_steps_for_tau tr t = Inr out" if "1 \<le> t" for t
    using compute_steps_filter [OF assms that] by blast
  have "(compute_steps_for_tau tr tau = Inl InvalidLag) = (tau < 1)"
  proof (cases "tau < 1")
    case True
    then show ?thesis by (simp add: bad)
  next
    case False
    then obtain out where "compute_steps_for_tau tr tau = Inr out"
      using good [of tau] by auto
    with False show ?thesis by simp
  qed
  then show ?thesis using bad [of 0] bad [of "- 1"] good [of 1] good [of tau] by simp
qed

theorem invalid_lag_iff_witness:
  "REQUIRED_TRACK_COLS \<subseteq> set (columns demo_tracks) \<and>
   compute_steps_for_tau demo_tracks 0 = Inl InvalidLag \<and>
   compute_steps_for_tau demo_tracks (- 1) = Inl InvalidLag \<and>
   (\<exists>out. compute_steps_for_tau demo_tracks 1 = Inr out) \<and>
   compute_steps_for_tau demo_tracks 3 \<noteq> Inl InvalidLag"
proof -
  have cols: "REQUIRED_TRACK_COLS \<subseteq> set (columns demo_tracks)" by code_simp
  show ?thesis
    using invalid_lag_iff [OF cols, of 3] cols by simp
qed

section \<open>Several lags\<close>

lemma steps_loop_blocks:
  assumes "\<And>tau. tau \<in> set taus \<Longrightarrow> compute_steps_for_tau tr tau = Inr (f tau)"
  shows "steps_loop tr all_steps taus = Inr (all_steps @ map f taus)"
  using assms by (induction taus arbitrary: all_steps) simp_all

lemma pd_concat_eq:
  "pd_concat frames = (if frames = [] then Inl NoObjectsToConcatenate else Inr (concat frames))"
  by (cases frames) simp_all

text \<open>
  Claim C3, on the code. For a tracks table with the required columns and lags that are
  all at least 1, every single-lag call succeeds, and \<open>compute_steps_multi_tau\<close> returns
  the rows of these results one after the other, in the order of the list of lags, each
  block as the single-lag call returns it and once per occurrence of its lag in the list,
  provided the list is not empty. On the empty list it raises instead: \<open>pd.concat\<close>
  has no frame to concatenate.
\<close>

theorem multi_tau_concat:
  assumes "REQUIRED_TRACK_COLS \<subseteq> set (columns tr)" and "\<forall>tau \<in> set taus. 1 \<le> tau"
  shows "\<exists>blocks. map (compute_steps_for_tau tr) taus = map Inr blocks \<and>
           compute_steps_multi_tau tr taus =
             (if taus = [] then Inl NoObjectsToConcatenate else Inr (concat blocks))"
proof -
  define f where
    "f tau = map returned_step (filter notna_step (partition_and_pair (rows tr) tau))" for tau
  have each: "compute_steps_for_tau tr tau = Inr (f tau)" if "tau \<in> set taus" for tau
    unfolding f_def using that assms by (intro compute_steps_filter) auto
  then have "map (compute_steps_for_tau tr) taus = map Inr (map f taus)"
    by simp
  moreover have "compute_steps_multi_tau tr taus =
      (if taus = [] then Inl NoObjectsToConcatenate else Inr (concat (map f taus)))"
    using assms(1) steps_loop_blocks [of taus tr f "[]", OF each]
    by (simp add: compute_steps_multi_tau_def validate_tracks_ok [THEN iffD2] pd_concat_eq)
  ultimately show ?thesis by blast
qed

theorem multi_tau_concat_witness:
  "REQUIRED_TRACK_COLS \<subseteq> set (columns demo_tracks) \<and>
   list_all (\<lambda>tau. 1 \<le> tau) [2, 1, 2 :: int] \<and>
   compute_steps_multi_tau demo_tracks [] = Inl NoObjectsToConcatenate \<and>
   (\<exists>b2 b1. compute_steps_for_tau demo_tracks 2 = Inr b2 \<and>
            compute_steps_for_tau demo_tracks 1 = Inr b1 \<and>
            compute_steps_multi_tau demo_tracks [2, 1, 2] = Inr (b2 @ b1 @ b2))"
proof -
  have cols: "REQUIRED_TRACK_COLS \<subseteq> set (columns demo_tracks)" by code_simp
  have lags: "\<forall>tau \<in> set [2, 1, 2 :: int]. 1 \<le> tau" by simp
  from multi_tau_concat [OF cols, of "[]"]
  have empty: "compute_steps_multi_tau demo_tracks [] = Inl NoObjectsToConcatenate"
    by simp
  from multi_tau_concat [OF cols lags] obtain blocks
    where bm: "map (compute_steps_for_tau demo_tracks) [2, 1, 2] = map Inr blocks \<and>
      compute_steps_multi_tau demo_tracks [2, 1, 2] =
        (if [2, 1, 2 :: int] = [] then Inl NoObjectsToConcatenate else Inr (concat blocks))"
    by blast
  then have b: "map (compute_steps_for_tau demo_tracks) [2, 1, 2] = map Inr blocks"
    and m: "compute_steps_multi_tau demo_tracks [2, 1, 2] = Inr (concat blocks)"
    by simp_all
  from b obtain b2 b1 b2' where "blocks = [b2, b1, b2']"
    "compute_steps_for_tau demo_tracks 2 = Inr b2"
    "compute_steps_for_tau demo_tracks 1 = Inr b1"
    "compute_steps_for_tau demo_tracks 2 = Inr b2'"
    by (auto simp: map_eq_Cons_conv)
  with m have "\<exists>b2 b1. compute_steps_for_tau demo_tracks 2 = Inr b2 \<and>
            compute_steps_for_tau demo_tracks 1 = Inr b1 \<and>
            compute_steps_multi_tau demo_tracks [2, 1, 2] = Inr (b2 @ b1 @ b2)"
    by auto
  then show ?thesis using cols empty by simp
qed

text \<open>
  Claim C4, on the code. With an empty list of lags, \<open>compute_steps_multi_tau\<close> does not
  return an empty steps table: on every tracks table with the required columns it fails
  with the ValueError of \<open>pd.concat\<close>, "No objects to concatenate".
\<close>

theorem multi_tau_empty_raises:
  "REQUIRED_TRACK_COLS \<subseteq> set (columns tr) \<Longrightarrow>
     compute_steps_multi_tau tr [] = Inl NoObjectsToConcatenate"
  by (simp add: compute_steps_multi_tau_def validate_tracks_ok [THEN iffD2])

theorem multi_tau_empty_raises_witness:
  "REQUIRED_TRACK_COLS \<subseteq> set (columns nan_tracks) \<and>
   compute_steps_multi_tau nan_tracks [] = Inl NoObjectsToConcatenate"
proof -
  have cols: "REQUIRED_TRACK_COLS \<subseteq> set (columns nan_tracks)" by code_simp
  show ?thesis using multi_tau_empty_raises [OF cols] cols by simp
qed


section \<open>The order of the input rows\<close>

lemma sort_values_permuted:
  assumes "distinct (map (\<lambda>r. (cell_id r, frame r)) rs)" and "mset rs' = mset rs"
  shows "sort_values rs' = sort_values rs"
  unfolding sort_values_def
proof (rule sort_key_inj_key_eq)
  show "mset rs' = mset (sort_key (\<lambda>r. (cell_id r, frame r)) rs)"
    using assms(2) by simp
  have "set rs' = set rs" using assms(2) by (rule mset_eq_setD)
  then show "inj_on (\<lambda>r. (cell_id r, frame r)) (set rs')"
    using assms(1) by (simp add: distinct_map)
  show "sorted (map (\<lambda>r. (cell_id r, frame r)) (sort_key (\<lambda>r. (cell_id r, frame r)) rs))"
    by (rule sorted_sort_key)
qed

lemma compute_steps_cong:
  assumes "columns tr' = columns tr" and "sort_values (rows tr') = sort_values (rows tr)"
  shows "compute_steps_for_tau tr' tau = compute_steps_for_tau tr tau"
  using assms by (simp add: compute_steps_for_tau_def validate_tracks_def)

text \<open>
  Claim C8. When no two rows of a tracks table share their \<open>(cell_id, frame)\<close> pair,
  \<open>compute_steps_for_tau\<close> returns the same result, rows and row order, on every table
  with the same columns and the same rows in another order; in particular on the table
  with its rows sorted by frame. This holds for every lag, and for the errors as well.
\<close>

theorem compute_steps_row_order_independent:
  assumes "distinct (map (\<lambda>r. (cell_id r, frame r)) (rows tr))"
    and "mset (rows tr') = mset (rows tr)" and "columns tr' = columns tr"
  shows "compute_steps_for_tau tr' tau = compute_steps_for_tau tr tau \<and>
         compute_steps_for_tau (tr\<lparr>rows := sort_key frame (rows tr)\<rparr>) tau =
           compute_steps_for_tau tr tau"
proof
  show "compute_steps_for_tau tr' tau = compute_steps_for_tau tr tau"
    using assms by (intro compute_steps_cong sort_values_permuted)
  show "compute_steps_for_tau (tr\<lparr>rows := sort_key frame (rows tr)\<rparr>) tau =
          compute_steps_for_tau tr tau"
    using assms(1) by (intro compute_steps_cong sort_values_permuted) simp_all
qed

theorem compute_steps_row_order_independent_witness:
  "distinct (map (\<lambda>r. (cell_id r, frame r)) (rows demo_tracks_by_frame)) \<and>
   mset (rows demo_tracks) = mset (rows demo_tracks_by_frame) \<and>
   columns demo_tracks = columns demo_tracks_by_frame \<and>
   rows demo_tracks \<noteq> rows demo_tracks_by_frame \<and>
   sort_key frame (rows demo_tracks) = rows demo_tracks_by_frame \<and>
   compute_steps_for_tau demo_tracks 1 = compute_steps_for_tau demo_tracks_by_frame 1"
proof -
  have d: "distinct (map (\<lambda>r. (cell_id r, frame r)) (rows demo_tracks_by_frame))"
    by code_simp
  have m: "mset (rows demo_tracks) = mset (rows demo_tracks_by_frame)"
    by (simp add: demo_tracks_def demo_tracks_by_frame_def)
  have c: "columns demo_tracks = columns demo_tracks_by_frame"
    by (simp add: demo_tracks_def demo_tracks_by_frame_def)
  have n: "rows demo_tracks \<noteq> rows demo_tracks_by_frame" by code_simp
  have s: "sort_key frame (rows demo_tracks) = rows demo_tracks_by_frame" by code_simp
  from compute_steps_row_order_independent [OF d m c, of 1]
  have "compute_steps_for_tau demo_tracks 1 = compute_steps_for_tau demo_tracks_by_frame 1"
    by blast
  then show ?thesis by (intro conjI d m c n s)
qed

section \<open>Frames of a step\<close>










section \<open>The summary per lag\<close>

lemma fadd_commute: "fadd a b = fadd b a"
  by (cases a; cases b) simp_all

lemma sort_key_Nil_iff: "sort_key f xs = [] \<longleftrightarrow> xs = []"
  by (metis length_0_conv length_sort)

lemma pd_median_spec:
  "pd_median vals =
     (case median_spec (filter (\<lambda>v. \<not> isnan v) vals) of None \<Rightarrow> NaN | Some m \<Rightarrow> m)"
proof -
  let ?a = "filter (\<lambda>v. \<not> isnan v) vals"
  show ?thesis
  proof (cases "length ?a = 0")
    case True
    then show ?thesis by (simp add: pd_median_def median_spec_def Let_def)
  next
    case False
    then show ?thesis
      by (auto simp: pd_median_def median_spec_def Let_def kth_smallest_def fadd_commute
          odd_iff_mod_2_eq_one sort_key_Nil_iff)
  qed
qed

lemma summary_keys:
  "map tau_frames_summary (summary_by_tau steps_all) =
     sorted_list_of_set (tau_frames ` set steps_all)"
proof -
  have "map tau_frames_summary (map (summary_row steps_all) ks) = ks" for ks
    by (induction ks) (simp_all add: summary_row_def Let_def)
  then show ?thesis
    by (simp add: summary_by_tau_def sorted_list_of_set_sort_remdups [symmetric])
qed

lemma summary_row_of:
  assumes "row \<in> set (summary_by_tau steps_all)"
  shows "row = summary_row steps_all (tau_frames_summary row)"
proof -
  from assms obtain k where "row = summary_row steps_all k"
    by (auto simp: summary_by_tau_def)
  moreover have "tau_frames_summary (summary_row steps_all k) = k"
    by (simp add: summary_row_def Let_def)
  ultimately show ?thesis by simp
qed

text \<open>
  Claim C7, as amended. For every steps table, \<open>summary_by_tau\<close> returns one row per
  distinct \<open>tau_frames\<close> value, in ascending order of \<open>tau_frames\<close>; in each row
  \<open>n_steps\<close> is the number of rows of the group, \<open>n_cells\<close> the number of distinct
  \<open>cell_id\<close> values in it, and \<open>median_tau_min\<close> the standard median (the average of the
  two middle values for an even count) of the \<open>tau_min\<close> values of the group that are not
  NaN, or NaN when all of them are NaN; where no \<open>tau_min\<close> of the group is NaN, that is
  the standard median of the group's \<open>tau_min\<close> values. The empty steps table gives the
  empty summary.
\<close>

theorem summary_by_tau_rows:
  "map tau_frames_summary (summary_by_tau steps_all) =
     sorted_list_of_set (tau_frames ` set steps_all) \<and>
   (\<forall>row \<in> set (summary_by_tau steps_all).
      n_steps row = length (lag_group (tau_frames_summary row) steps_all) \<and>
      n_cells row = card (cell_id_step ` set (lag_group (tau_frames_summary row) steps_all)) \<and>
      median_tau_min row =
        (case median_spec (filter (\<lambda>v. \<not> isnan v)
                 (map tau_min (lag_group (tau_frames_summary row) steps_all))) of
           None \<Rightarrow> NaN | Some m \<Rightarrow> m) \<and>
      (list_all (\<lambda>v. \<not> isnan v) (map tau_min (lag_group (tau_frames_summary row) steps_all)) \<longrightarrow>
         median_spec (map tau_min (lag_group (tau_frames_summary row) steps_all)) =
           Some (median_tau_min row))) \<and>
   summary_by_tau [] = []"
proof (intro conjI ballI impI)
  show "map tau_frames_summary (summary_by_tau steps_all) =
          sorted_list_of_set (tau_frames ` set steps_all)"
    by (rule summary_keys)
  show "summary_by_tau [] = []" by (simp add: summary_by_tau_def)
next
  fix row assume row: "row \<in> set (summary_by_tau steps_all)"
  let ?k = "tau_frames_summary row"
  let ?g = "lag_group ?k steps_all"
  have eq: "row = summary_row steps_all ?k" by (rule summary_row_of [OF row])
  have fields: "n_steps row = length ?g"
    "n_cells row = length (remdups (map cell_id_step ?g))"
    "median_tau_min row = pd_median (map tau_min ?g)"
    by (subst eq, simp add: summary_row_def lag_group_def Let_def)+
  show "n_steps row = length ?g" by (rule fields(1))
  show "n_cells row = card (cell_id_step ` set ?g)"
    by (simp add: fields(2) length_remdups_card_conv)
  show med: "median_tau_min row =
      (case median_spec (filter (\<lambda>v. \<not> isnan v) (map tau_min ?g)) of
         None \<Rightarrow> NaN | Some m \<Rightarrow> m)"
    by (simp only: fields(3) pd_median_spec)
  assume all: "list_all (\<lambda>v. \<not> isnan v) (map tau_min ?g)"
  then have same: "filter (\<lambda>v. \<not> isnan v) (map tau_min ?g) = map tau_min ?g"
    by (simp add: list_all_iff filter_id_conv)
  from row have "?k \<in> tau_frames ` set steps_all"
    using summary_keys [of steps_all]
    by (metis (no_types, lifting) List.finite_set finite_imageI image_eqI list.set_map
        set_sorted_list_of_set)
  then have "?g \<noteq> []"
    by (auto simp: lag_group_def filter_empty_conv)
  then have "median_spec (map tau_min ?g) \<noteq> None"
    by (simp add: median_spec_def Let_def sort_key_Nil_iff)
  with med same show "median_spec (map tau_min ?g) = Some (median_tau_min row)"
    by (auto simp only: split: option.splits)
qed


theorem summary_by_tau_rows_witness:
  "compute_steps_multi_tau demo_tracks [2, 1, 2] = Inr demo_steps \<and>
   sorted_list_of_set (tau_frames ` set demo_steps) = [1, 2] \<and>
   map tau_frames_summary (summary_by_tau demo_steps) = [1, 2] \<and>
   summary_by_tau demo_steps =
     [\<lparr>tau_frames_summary = 1, n_steps = 3, n_cells = 2, median_tau_min = Fin (3 / 2)\<rparr>,
      \<lparr>tau_frames_summary = 2, n_steps = 2, n_cells = 1, median_tau_min = Fin 2\<rparr>] \<and>
   map tau_min (lag_group 1 demo_steps) = [Fin (3 / 2), Fin (1 / 2), Fin 3] \<and>
   map tau_min (lag_group 2 demo_steps) = [Fin 2, Fin 2]"
proof -
  have a: "compute_steps_multi_tau demo_tracks [2, 1, 2] = Inr demo_steps" by code_simp
  have b: "sorted_list_of_set (tau_frames ` set demo_steps) = [1, 2]" by code_simp
  have c: "summary_by_tau demo_steps =
     [\<lparr>tau_frames_summary = 1, n_steps = 3, n_cells = 2, median_tau_min = Fin (3 / 2)\<rparr>,
      \<lparr>tau_frames_summary = 2, n_steps = 2, n_cells = 1, median_tau_min = Fin 2\<rparr>]"
    by code_simp
  have d: "map tau_min (lag_group 1 demo_steps) = [Fin (3 / 2), Fin (1 / 2), Fin 3]"
    "map tau_min (lag_group 2 demo_steps) = [Fin 2, Fin 2]"
    by code_simp+
  from summary_by_tau_rows [of demo_steps]
  have "map tau_frames_summary (summary_by_tau demo_steps) = [1, 2]"
    unfolding b by blast
  then show ?thesis by (intro conjI a b c d)
qed

text \<open>
  The claim as stated fails where a \<open>tau_min\<close> is NaN. The steps of \<open>nan_time_tracks\<close>
  for lag 1 form one group of three rows with the \<open>tau_min\<close> values NaN, 1 and 2; the
  summary reports the median 1.5, which is none of the three values of this odd-sized
  group and not their standard median.
\<close>

theorem summary_by_tau_nan_counterexample:
  "compute_steps_for_tau nan_time_tracks 1 = Inr nan_steps \<and>
   summary_by_tau nan_steps =
     [\<lparr>tau_frames_summary = 1, n_steps = 3, n_cells = 1, median_tau_min = Fin (3 / 2)\<rparr>] \<and>
   map tau_min (lag_group 1 nan_steps) = [NaN, Fin 1, Fin 2] \<and>
   Fin (3 / 2) \<notin> set (map tau_min (lag_group 1 nan_steps)) \<and>
   median_spec (map tau_min (lag_group 1 nan_steps)) \<noteq> Some (Fin (3 / 2))"
  by code_simp


end
